theory Spec2Isabelle
  imports Complex_Main "HOL-Library.Sublist" "HOL-Library.Multiset"
begin

section \<open>The fuzzy inference core of fuzzy.py\<close>

text \<open>
  The embedding follows \<^verbatim>\<open>src/fuzzy.py\<close> function by function.

  \<^item> A Python number, an \<^verbatim>\<open>int\<close> or a finite \<^verbatim>\<open>float\<close>, is modelled by its value, a
    \<^typ>\<open>real\<close>. Comparisons, \<^verbatim>\<open>min\<close> and \<^verbatim>\<open>max\<close> are those of the values, as
    Python's are between ints and floats. Infinities and NaN are not modelled.
  \<^item> The arithmetic of \<^verbatim>\<open>triangular\<close>, \<^verbatim>\<open>trapezoidal\<close> and \<^verbatim>\<open>defuzzify\<close> is not
    computed by the model. Python rounds a float result, converts an int operand to
    float when the other operand is a float, and raises \<^verbatim>\<open>OverflowError\<close> when an int
    is too large for that; so \<^verbatim>\<open>c - b\<close> can be \<^verbatim>\<open>0.0\<close> for \<^verbatim>\<open>b < c\<close>. The four
    operations are taken as a parameter, the record \<open>py_arith\<close>, which gives for the
    values of the operands what the operation returns or raises. A statement with a free
    \<open>ar\<close> holds for whatever the operations do; what a statement needs of them is
    written as its hypothesis. The complement's \<^verbatim>\<open>1 - v\<close> on a clamped value is the
    difference of the values.
  \<^item> A Python callable is a HOL function into \<open>py_error + 'a\<close>: \<open>Inl\<close> is the exception
    it raised, \<open>Inr\<close> the value it returned. Every call site propagates an \<open>Inl\<close>
    unchanged, as an uncaught exception does.
  \<^item> A \<^verbatim>\<open>dict\<close> is an association list in insertion order with distinct keys:
    storing under a key that is present replaces the value in place, storing under a
    new key appends the pair.
\<close>

subsection \<open>Exceptions, arithmetic, dictionaries\<close>

datatype py_error = ZeroDivisionError | OverflowError | KeyError | OtherError

text \<open>\<^verbatim>\<open>x + y\<close>, \<^verbatim>\<open>x - y\<close>, \<^verbatim>\<open>x * y\<close> and \<^verbatim>\<open>x / y\<close> on numbers.\<close>

record py_arith =
  py_add :: "real \<Rightarrow> real \<Rightarrow> py_error + real"
  py_sub :: "real \<Rightarrow> real \<Rightarrow> py_error + real"
  py_mul :: "real \<Rightarrow> real \<Rightarrow> py_error + real"
  py_truediv :: "real \<Rightarrow> real \<Rightarrow> py_error + real"

text \<open>
  \<^verbatim>\<open>(p - q) / (r - s)\<close>: the left difference is computed first, then the right one,
  then the quotient.
\<close>

definition sub_div :: "py_arith \<Rightarrow> real \<Rightarrow> real \<Rightarrow> real \<Rightarrow> real \<Rightarrow> py_error + real" where
  "sub_div ar p q r s =
     (case py_sub ar p q of
        Inl e \<Rightarrow> Inl e
      | Inr n \<Rightarrow>
          (case py_sub ar r s of
             Inl e \<Rightarrow> Inl e
           | Inr d \<Rightarrow> py_truediv ar n d))"

text \<open>\<^verbatim>\<open>d[k] = v\<close>\<close>

fun dict_set :: "('k \<times> 'v) list \<Rightarrow> 'k \<Rightarrow> 'v \<Rightarrow> ('k \<times> 'v) list" where
  "dict_set [] k v = [(k, v)]"
| "dict_set ((k', v') # kvs) k v =
     (if k' = k then (k', v) # kvs else (k', v') # dict_set kvs k v)"

text \<open>\<^verbatim>\<open>d[k]\<close>\<close>

fun dict_get :: "('k \<times> 'v) list \<Rightarrow> 'k \<Rightarrow> py_error + 'v" where
  "dict_get [] k = Inl KeyError"
| "dict_get ((k', v') # kvs) k = (if k' = k then Inr v' else dict_get kvs k)"

subsection \<open>MembershipFunction\<close>

text \<open>
  The display names are f-strings over the parameters and the operands' names. They are
  kept as the structure the f-string is built from; the rendering of a number as text is
  not modelled. \<open>Named s\<close> is a name passed in by the caller or taken from
  \<^verbatim>\<open>func.__name__\<close>.
\<close>

datatype mf_name =
    Named string
  | Tri_name real real real
  | Trap_name real real real real
  | Not_name mf_name
  | And_name mf_name mf_name
  | Or_name mf_name mf_name

record MembershipFunction =
  func :: "real \<Rightarrow> py_error + real"
  name :: mf_name

text \<open>\<^verbatim>\<open>__call__\<close>: \<^verbatim>\<open>max(0.0, min(1.0, self.func(x)))\<close>\<close>

definition MembershipFunction_call :: "MembershipFunction \<Rightarrow> real \<Rightarrow> py_error + real" where
  "MembershipFunction_call f x =
     (case func f x of Inl e \<Rightarrow> Inl e | Inr r \<Rightarrow> Inr (max 0 (min 1 r)))"

subsection \<open>FuzzySet\<close>

record FuzzySet =
  mu :: MembershipFunction
  universe :: "real list"
  members :: "(real \<times> real) list"

text \<open>
  The comprehension \<^verbatim>\<open>{x: mu(x) for x in universe}\<close>, run from the dictionary built so
  far; it stops at the first point where \<^verbatim>\<open>mu\<close> raises.
\<close>

fun build_members ::
  "MembershipFunction \<Rightarrow> real list \<Rightarrow> (real \<times> real) list \<Rightarrow> py_error + (real \<times> real) list" where
  "build_members m [] d = Inr d"
| "build_members m (x # xs) d =
     (case MembershipFunction_call m x of
        Inl e \<Rightarrow> Inl e
      | Inr v \<Rightarrow> build_members m xs (dict_set d x v))"

definition FuzzySet_init :: "MembershipFunction \<Rightarrow> real list \<Rightarrow> py_error + FuzzySet" where
  "FuzzySet_init m u =
     (case build_members m u [] of
        Inl e \<Rightarrow> Inl e
      | Inr d \<Rightarrow> Inr \<lparr>mu = m, universe = u, members = d\<rparr>)"

text \<open>
  The three combinators wrap a closure over the operands in a new MembershipFunction
  and construct a FuzzySet from it over the universe of the first operand. The closures
  are named here so that they can be evaluated without the constructor.
\<close>

definition complement_mu :: "FuzzySet \<Rightarrow> MembershipFunction" where
  "complement_mu self =
     \<lparr>func = (\<lambda>x. case MembershipFunction_call (mu self) x of
                       Inl e \<Rightarrow> Inl e
                     | Inr v \<Rightarrow> Inr (1 - v)),
      name = Not_name (name (mu self))\<rparr>"

definition FuzzySet_complement :: "FuzzySet \<Rightarrow> py_error + FuzzySet" where
  "FuzzySet_complement self = FuzzySet_init (complement_mu self) (universe self)"

definition intersection_mu :: "FuzzySet \<Rightarrow> FuzzySet \<Rightarrow> MembershipFunction" where
  "intersection_mu A B =
     \<lparr>func = (\<lambda>x. case MembershipFunction_call (mu A) x of
                       Inl e \<Rightarrow> Inl e
                     | Inr va \<Rightarrow>
                         (case MembershipFunction_call (mu B) x of
                            Inl e \<Rightarrow> Inl e
                          | Inr vb \<Rightarrow> Inr (min va vb))),
      name = And_name (name (mu A)) (name (mu B))\<rparr>"

definition FuzzySet_intersection :: "FuzzySet \<Rightarrow> FuzzySet \<Rightarrow> py_error + FuzzySet" where
  "FuzzySet_intersection A B = FuzzySet_init (intersection_mu A B) (universe A)"

definition union_mu :: "FuzzySet \<Rightarrow> FuzzySet \<Rightarrow> MembershipFunction" where
  "union_mu A B =
     \<lparr>func = (\<lambda>x. case MembershipFunction_call (mu A) x of
                       Inl e \<Rightarrow> Inl e
                     | Inr va \<Rightarrow>
                         (case MembershipFunction_call (mu B) x of
                            Inl e \<Rightarrow> Inl e
                          | Inr vb \<Rightarrow> Inr (max va vb))),
      name = Or_name (name (mu A)) (name (mu B))\<rparr>"

definition FuzzySet_union :: "FuzzySet \<Rightarrow> FuzzySet \<Rightarrow> py_error + FuzzySet" where
  "FuzzySet_union A B = FuzzySet_init (union_mu A B) (universe A)"

subsection \<open>FuzzyRule and FuzzyInferenceSystem\<close>

record FuzzyRule =
  antecedent :: "(string \<rightharpoonup> real) \<Rightarrow> py_error + real"
  consequent :: FuzzySet

text \<open>
  The field \<^verbatim>\<open>universe\<close> of the inference system is \<open>fis_universe\<close> here, the name
  \<open>universe\<close> being the field of FuzzySet.
\<close>

record FuzzyInferenceSystem =
  fis_universe :: "real list"
  output_range :: "real list"
  rules :: "FuzzyRule list"

definition FuzzyInferenceSystem_init :: "real list \<Rightarrow> real list \<Rightarrow> FuzzyInferenceSystem" where
  "FuzzyInferenceSystem_init u out = \<lparr>fis_universe = u, output_range = out, rules = []\<rparr>"

definition add_rule :: "FuzzyInferenceSystem \<Rightarrow> FuzzyRule \<Rightarrow> FuzzyInferenceSystem" where
  "add_rule self rule = self\<lparr>rules := rules self @ [rule]\<rparr>"

text \<open>\<^verbatim>\<open>{y: 0.0 for y in self.output_range}\<close>, run from the dictionary built so far.\<close>

fun zero_dict :: "real list \<Rightarrow> (real \<times> real) list \<Rightarrow> (real \<times> real) list" where
  "zero_dict [] d = d"
| "zero_dict (y # ys) d = zero_dict ys (dict_set d y 0)"

text \<open>
  The inner loop of \<^verbatim>\<open>infer\<close> for one rule whose antecedent returned \<open>degree\<close>:
  \<^verbatim>\<open>aggregated[y] = max(aggregated[y], min(degree, rule.consequent.mu(y)))\<close>.
  The right-hand side reads \<^verbatim>\<open>aggregated[y]\<close> first, then calls the consequent.
\<close>

fun infer_points ::
  "real \<Rightarrow> FuzzySet \<Rightarrow> real list \<Rightarrow> (real \<times> real) list \<Rightarrow> py_error + (real \<times> real) list" where
  "infer_points degree cons [] aggregated = Inr aggregated"
| "infer_points degree cons (y # ys) aggregated =
     (case dict_get aggregated y of
        Inl e \<Rightarrow> Inl e
      | Inr cur \<Rightarrow>
          (case MembershipFunction_call (mu cons) y of
             Inl e \<Rightarrow> Inl e
           | Inr m \<Rightarrow> infer_points degree cons ys (dict_set aggregated y (max cur (min degree m)))))"

text \<open>The outer loop of \<^verbatim>\<open>infer\<close> over the rules.\<close>

fun infer_rules ::
  "FuzzyRule list \<Rightarrow> (string \<rightharpoonup> real) \<Rightarrow> real list \<Rightarrow> (real \<times> real) list
     \<Rightarrow> py_error + (real \<times> real) list" where
  "infer_rules [] inputs out aggregated = Inr aggregated"
| "infer_rules (rule # rs) inputs out aggregated =
     (case antecedent rule inputs of
        Inl e \<Rightarrow> Inl e
      | Inr degree \<Rightarrow>
          (case infer_points degree (consequent rule) out aggregated of
             Inl e \<Rightarrow> Inl e
           | Inr aggregated' \<Rightarrow> infer_rules rs inputs out aggregated'))"

definition infer ::
  "FuzzyInferenceSystem \<Rightarrow> (string \<rightharpoonup> real) \<Rightarrow> py_error + (real \<times> real) list" where
  "infer self inputs =
     infer_rules (rules self) inputs (output_range self) (zero_dict (output_range self) [])"

text \<open>
  \<^verbatim>\<open>sum(y * mu for y, mu in aggregated.items())\<close> from the running total \<open>acc\<close>:
  \<^verbatim>\<open>sum\<close> starts at 0 and, for each item in order, computes the product and adds it.
\<close>

fun sum_products :: "py_arith \<Rightarrow> real \<Rightarrow> (real \<times> real) list \<Rightarrow> py_error + real" where
  "sum_products ar acc [] = Inr acc"
| "sum_products ar acc ((y, m) # items) =
     (case py_mul ar y m of
        Inl e \<Rightarrow> Inl e
      | Inr p \<Rightarrow>
          (case py_add ar acc p of
             Inl e \<Rightarrow> Inl e
           | Inr acc' \<Rightarrow> sum_products ar acc' items))"

text \<open>\<^verbatim>\<open>sum(mu for mu in aggregated.values())\<close> from the running total \<open>acc\<close>.\<close>

fun sum_values :: "py_arith \<Rightarrow> real \<Rightarrow> (real \<times> real) list \<Rightarrow> py_error + real" where
  "sum_values ar acc [] = Inr acc"
| "sum_values ar acc ((y, m) # items) =
     (case py_add ar acc m of
        Inl e \<Rightarrow> Inl e
      | Inr acc' \<Rightarrow> sum_values ar acc' items)"

text \<open>
  \<^verbatim>\<open>defuzzify\<close> does not read \<^verbatim>\<open>self\<close>. The numerator is computed first, then the
  denominator, then \<^verbatim>\<open>num / den if den != 0 else 0.0\<close>.
\<close>

definition defuzzify :: "py_arith \<Rightarrow> (real \<times> real) list \<Rightarrow> py_error + real" where
  "defuzzify ar aggregated =
     (case sum_products ar 0 aggregated of
        Inl e \<Rightarrow> Inl e
      | Inr num \<Rightarrow>
          (case sum_values ar 0 aggregated of
             Inl e \<Rightarrow> Inl e
           | Inr den \<Rightarrow> if den \<noteq> 0 then py_truediv ar num den else Inr 0))"

subsection \<open>Triangular and trapezoidal membership functions\<close>

definition triangular_mu ::
  "py_arith \<Rightarrow> real \<Rightarrow> real \<Rightarrow> real \<Rightarrow> real \<Rightarrow> py_error + real" where
  "triangular_mu ar a b c x =
     (if x \<le> a \<or> x \<ge> c then Inr 0
      else if x < b then sub_div ar x a b a
      else sub_div ar c x c b)"

definition triangular :: "py_arith \<Rightarrow> real \<Rightarrow> real \<Rightarrow> real \<Rightarrow> MembershipFunction" where
  "triangular ar a b c = \<lparr>func = triangular_mu ar a b c, name = Tri_name a b c\<rparr>"

definition trapezoidal_mu ::
  "py_arith \<Rightarrow> real \<Rightarrow> real \<Rightarrow> real \<Rightarrow> real \<Rightarrow> real \<Rightarrow> py_error + real" where
  "trapezoidal_mu ar a b c d x =
     (if x \<le> a \<or> x \<ge> d then Inr 0
      else if a < x \<and> x < b then sub_div ar x a b a
      else if b \<le> x \<and> x \<le> c then Inr 1
      else sub_div ar d x d c)"

definition trapezoidal ::
  "py_arith \<Rightarrow> real \<Rightarrow> real \<Rightarrow> real \<Rightarrow> real \<Rightarrow> MembershipFunction" where
  "trapezoidal ar a b c d = \<lparr>func = trapezoidal_mu ar a b c d, name = Trap_name a b c d\<rparr>"

section \<open>Auxiliary lemmas\<close>

subsection \<open>Dictionaries\<close>

lemma keys_dict_set:
  "map fst (dict_set d k v) = (if k \<in> set (map fst d) then map fst d else map fst d @ [k])"
  by (induction d k v rule: dict_set.induct) auto

lemma set_dict_set: "set (dict_set d k v) \<subseteq> insert (k, v) (set d)"
  by (induction d k v rule: dict_set.induct) auto

lemma dict_get_mem: "dict_get d y = Inr v \<Longrightarrow> (y, v) \<in> set d"
  by (induction d) (auto split: if_splits)

text \<open>
  A dictionary with distinct keys \<open>ks\<close> is the list of the pairs \<open>(k, f k)\<close>; a store
  under a present key updates \<open>f\<close>.
\<close>

lemma dict_set_closed:
  "distinct ks \<Longrightarrow> y \<in> set ks \<Longrightarrow>
     dict_set (map (\<lambda>k. (k, f k)) ks) y v = map (\<lambda>k. (k, (f(y := v)) k)) ks"
  by (induction ks) auto

lemma dict_get_closed:
  "y \<in> set ks \<Longrightarrow> dict_get (map (\<lambda>k. (k, f k)) ks) y = Inr (f y)"
  by (induction ks) auto

subsection \<open>The points of a list in order of first occurrence\<close>

lemma remdups_snoc: "remdups (ys @ [x]) = filter (\<lambda>y. y \<noteq> x) (remdups ys) @ [x]"
  by (induction ys) auto

lemma first_occ_Cons:
  "rev (remdups (rev (x # xs))) = x # filter (\<lambda>y. y \<noteq> x) (rev (remdups (rev xs)))"
  by (simp add: remdups_snoc rev_filter)

lemma first_occ_subseq: "subseq (rev (remdups (rev xs))) xs"
proof (induction xs)
  case Nil
  then show ?case by simp
next
  case (Cons x xs)
  have "subseq (filter (\<lambda>y. y \<noteq> x) (rev (remdups (rev xs)))) xs"
    using subseq_filter_left Cons.IH by (rule subseq_order.trans)
  then show ?case unfolding first_occ_Cons by simp
qed

subsection \<open>The dictionary comprehensions\<close>

lemma build_members_keys:
  "build_members m xs d = Inr r \<Longrightarrow>
     map fst r = map fst d @ filter (\<lambda>x. x \<notin> set (map fst d)) (rev (remdups (rev xs)))"
proof (induction xs arbitrary: d)
  case Nil
  then show ?case by simp
next
  case (Cons x xs)
  from Cons.prems obtain v where v: "MembershipFunction_call m x = Inr v"
    and rest: "build_members m xs (dict_set d x v) = Inr r"
    by (auto split: sum.splits)
  have keys: "map fst r = map fst (dict_set d x v) @
      filter (\<lambda>y. y \<notin> set (map fst (dict_set d x v))) (rev (remdups (rev xs)))"
    by (rule Cons.IH [OF rest])
  show ?case
  proof (cases "x \<in> set (map fst d)")
    case True
    then have "map fst (dict_set d x v) = map fst d"
      by (simp add: keys_dict_set)
    moreover have "filter (\<lambda>y. y \<notin> set (map fst d)) (rev (remdups (rev (x # xs)))) =
        filter (\<lambda>y. y \<notin> set (map fst d)) (rev (remdups (rev xs)))"
      using True unfolding first_occ_Cons by (auto intro: filter_cong)
    ultimately show ?thesis using keys by simp
  next
    case False
    then have k: "map fst (dict_set d x v) = map fst d @ [x]"
      by (simp add: keys_dict_set)
    have "filter (\<lambda>y. y \<notin> set (map fst d)) (rev (remdups (rev (x # xs)))) =
        x # filter (\<lambda>y. y \<notin> set (map fst d @ [x])) (rev (remdups (rev xs)))"
      using False unfolding first_occ_Cons by (auto intro: filter_cong)
    then show ?thesis using keys k by simp
  qed
qed

lemma call_in_unit_interval: "MembershipFunction_call m x = Inr v \<Longrightarrow> 0 \<le> v \<and> v \<le> 1"
  by (auto simp: MembershipFunction_call_def split: sum.splits)

lemma build_members_values:
  "build_members m xs d = Inr r \<Longrightarrow> \<forall>p\<in>set d. 0 \<le> snd p \<and> snd p \<le> 1 \<Longrightarrow>
     \<forall>p\<in>set r. 0 \<le> snd p \<and> snd p \<le> 1"
proof (induction xs arbitrary: d)
  case Nil
  then show ?case by simp
next
  case (Cons x xs)
  from Cons.prems(1) obtain v where v: "MembershipFunction_call m x = Inr v"
    and rest: "build_members m xs (dict_set d x v) = Inr r"
    by (auto split: sum.splits)
  from v have "0 \<le> v \<and> v \<le> 1"
    by (rule call_in_unit_interval)
  then have "\<forall>p\<in>set (dict_set d x v). 0 \<le> snd p \<and> snd p \<le> 1"
    using Cons.prems(2) set_dict_set [of d x v] by auto
  then show ?case by (rule Cons.IH [OF rest])
qed

lemma build_members_returns:
  "(\<exists>r. build_members m xs d = Inr r) \<longleftrightarrow>
     (\<forall>x\<in>set xs. \<exists>v. MembershipFunction_call m x = Inr v)"
  by (induction xs arbitrary: d) (auto split: sum.splits)

lemma FuzzySet_init_returns:
  "(\<exists>S. FuzzySet_init m u = Inr S) \<longleftrightarrow> (\<forall>x\<in>set u. \<exists>v. MembershipFunction_call m x = Inr v)"
  using build_members_returns [of m u "[]"]
  by (auto simp: FuzzySet_init_def split: sum.splits)

lemma FuzzySet_init_fields: "FuzzySet_init m u = Inr S \<Longrightarrow> mu S = m \<and> universe S = u"
  by (auto simp: FuzzySet_init_def split: sum.splits)

text \<open>The zero dictionary is the comprehension of the constant-zero function.\<close>

lemma zero_dict_build:
  "build_members \<lparr>func = (\<lambda>x. Inr 0), name = Named []\<rparr> ys d = Inr (zero_dict ys d)"
  by (induction ys arbitrary: d) (simp_all add: MembershipFunction_call_def)

lemma zero_dict_values:
  "\<forall>p\<in>set d. snd p = 0 \<Longrightarrow> \<forall>p\<in>set (zero_dict ys d). snd p = 0"
proof (induction ys arbitrary: d)
  case Nil
  then show ?case by simp
next
  case (Cons y ys)
  have "\<forall>p\<in>set (dict_set d y 0). snd p = 0"
    using Cons.prems set_dict_set [of d y 0] by auto
  then show ?case using Cons.IH by simp
qed

lemma all_zero_closed: "\<forall>p\<in>set d. snd p = (0::real) \<Longrightarrow> d = map (\<lambda>k. (k, 0)) (map fst d)"
  by (induction d) auto

lemma zero_dict_closed:
  "zero_dict ys [] = map (\<lambda>k. (k, 0)) (rev (remdups (rev ys)))"
proof -
  have "\<forall>p\<in>set (zero_dict ys []). snd p = 0"
    by (rule zero_dict_values) simp
  then have "zero_dict ys [] = map (\<lambda>k. (k, 0)) (map fst (zero_dict ys []))"
    by (rule all_zero_closed)
  moreover have "map fst (zero_dict ys []) = rev (remdups (rev ys))"
    using build_members_keys [OF zero_dict_build, of ys "[]"] by simp
  ultimately show ?thesis by simp
qed

subsection \<open>The loops of infer\<close>

lemma infer_points_closed:
  "distinct ks \<Longrightarrow> set ys \<subseteq> set ks \<Longrightarrow>
   \<forall>y\<in>set ys. MembershipFunction_call (mu c) y = Inr (m y) \<Longrightarrow>
   infer_points d c ys (map (\<lambda>k. (k, f k)) ks) =
     Inr (map (\<lambda>k. (k, if k \<in> set ys then max (f k) (min d (m k)) else f k)) ks)"
proof (induction ys arbitrary: f)
  case Nil
  then show ?case by simp
next
  case (Cons y ys)
  let ?f' = "f(y := max (f y) (min d (m y)))"
  have step: "infer_points d c (y # ys) (map (\<lambda>k. (k, f k)) ks) =
      infer_points d c ys (map (\<lambda>k. (k, ?f' k)) ks)"
    using Cons.prems by (simp add: dict_get_closed dict_set_closed)
  have "infer_points d c ys (map (\<lambda>k. (k, ?f' k)) ks) =
     Inr (map (\<lambda>k. (k, if k \<in> set ys then max (?f' k) (min d (m k)) else ?f' k)) ks)"
    using Cons.prems by (intro Cons.IH) auto
  also have "map (\<lambda>k. (k, if k \<in> set ys then max (?f' k) (min d (m k)) else ?f' k)) ks =
     map (\<lambda>k. (k, if k \<in> set (y # ys) then max (f k) (min d (m k)) else f k)) ks"
    by (rule map_cong) auto
  finally show ?case using step by simp
qed

lemma infer_rules_closed:
  "distinct ks \<Longrightarrow> set out \<subseteq> set ks \<Longrightarrow>
   \<forall>r\<in>set rs. antecedent r inp = Inr (deg r) \<and>
       (\<forall>y\<in>set out. MembershipFunction_call (mu (consequent r)) y = Inr (m r y)) \<Longrightarrow>
   infer_rules rs inp out (map (\<lambda>k. (k, f k)) ks) =
     Inr (map (\<lambda>k. (k, if k \<in> set out
                         then fold max (map (\<lambda>r. min (deg r) (m r k)) rs) (f k)
                         else f k)) ks)"
proof (induction rs arbitrary: f)
  case Nil
  then show ?case by simp
next
  case (Cons r rs)
  let ?f' = "\<lambda>k. if k \<in> set out then max (f k) (min (deg r) (m r k)) else f k"
  have inner: "infer_points (deg r) (consequent r) out (map (\<lambda>k. (k, f k)) ks) =
      Inr (map (\<lambda>k. (k, ?f' k)) ks)"
    using Cons.prems by (intro infer_points_closed) auto
  have "infer_rules rs inp out (map (\<lambda>k. (k, ?f' k)) ks) =
     Inr (map (\<lambda>k. (k, if k \<in> set out
                         then fold max (map (\<lambda>r. min (deg r) (m r k)) rs) (?f' k)
                         else ?f' k)) ks)"
    using Cons.prems by (intro Cons.IH) auto
  also have "map (\<lambda>k. (k, if k \<in> set out
                         then fold max (map (\<lambda>r. min (deg r) (m r k)) rs) (?f' k)
                         else ?f' k)) ks =
     map (\<lambda>k. (k, if k \<in> set out
                         then fold max (map (\<lambda>r. min (deg r) (m r k)) (r # rs)) (f k)
                         else f k)) ks"
    by (rule map_cong) (auto simp: max.commute)
  finally show ?case using inner Cons.prems by simp
qed

lemma fold_max_Max: "fold max xs (x::real) = Max (insert x (set xs))"
  using Max.set_eq_fold [of x xs] by simp

text \<open>
  When no callable raises, \<^verbatim>\<open>infer\<close> returns the dictionary whose keys are the output
  points in order of first occurrence and whose value at \<open>k\<close> is the largest of 0 and
  the clipped consequent degrees of all rules.
\<close>

lemma infer_closed:
  assumes "\<forall>r\<in>set (rules self). antecedent r inputs = Inr (degree r) \<and>
       (\<forall>y\<in>set (output_range self). MembershipFunction_call (mu (consequent r)) y = Inr (cm r y))"
  shows "infer self inputs =
     Inr (map (\<lambda>k. (k, Max (insert 0 ((\<lambda>r. min (degree r) (cm r k)) ` set (rules self)))))
            (rev (remdups (rev (output_range self)))))"
proof -
  let ?ks = "rev (remdups (rev (output_range self)))"
  have "infer_rules (rules self) inputs (output_range self) (map (\<lambda>k. (k, 0)) ?ks) =
     Inr (map (\<lambda>k. (k, if k \<in> set (output_range self)
                         then fold max (map (\<lambda>r. min (degree r) (cm r k)) (rules self)) 0
                         else 0)) ?ks)"
    using assms by (intro infer_rules_closed) auto
  also have "map (\<lambda>k. (k, if k \<in> set (output_range self)
                         then fold max (map (\<lambda>r. min (degree r) (cm r k)) (rules self)) 0
                         else 0)) ?ks =
     map (\<lambda>k. (k, Max (insert 0 ((\<lambda>r. min (degree r) (cm r k)) ` set (rules self))))) ?ks"
    by (rule map_cong) (auto simp: fold_max_Max)
  finally show ?thesis by (simp add: infer_def zero_dict_closed)
qed

text \<open>\<^verbatim>\<open>infer\<close> returns only when every callable it reached returned.\<close>

lemma infer_points_returns:
  "infer_points d c ys agg = Inr agg' \<Longrightarrow>
     \<forall>y\<in>set ys. \<exists>v. MembershipFunction_call (mu c) y = Inr v"
  by (induction ys arbitrary: agg) (auto split: sum.splits)

lemma infer_rules_returns:
  "infer_rules rs inp out agg = Inr agg' \<Longrightarrow>
     \<forall>r\<in>set rs. (\<exists>d. antecedent r inp = Inr d) \<and>
        (\<forall>y\<in>set out. \<exists>v. MembershipFunction_call (mu (consequent r)) y = Inr v)"
proof (induction rs arbitrary: agg)
  case Nil
  then show ?case by simp
next
  case (Cons r rs)
  then show ?case
    by (auto split: sum.splits dest: infer_points_returns)
qed

text \<open>Both loops keep every stored value between 0 and 1.\<close>

lemma infer_points_range:
  "infer_points d c ys agg = Inr agg' \<Longrightarrow> \<forall>p\<in>set agg. 0 \<le> snd p \<and> snd p \<le> 1 \<Longrightarrow>
     \<forall>p\<in>set agg'. 0 \<le> snd p \<and> snd p \<le> 1"
proof (induction ys arbitrary: agg)
  case Nil
  then show ?case by simp
next
  case (Cons y ys)
  from Cons.prems(1) obtain cur v where cur: "dict_get agg y = Inr cur"
    and v: "MembershipFunction_call (mu c) y = Inr v"
    and rest: "infer_points d c ys (dict_set agg y (max cur (min d v))) = Inr agg'"
    by (auto split: sum.splits)
  from v have "0 \<le> v \<and> v \<le> 1"
    by (rule call_in_unit_interval)
  moreover have "0 \<le> cur \<and> cur \<le> 1"
    using dict_get_mem [OF cur] Cons.prems(2) by auto
  ultimately have "0 \<le> max cur (min d v) \<and> max cur (min d v) \<le> 1"
    by auto
  then have "\<forall>p\<in>set (dict_set agg y (max cur (min d v))). 0 \<le> snd p \<and> snd p \<le> 1"
    using Cons.prems(2) set_dict_set [of agg y "max cur (min d v)"] by auto
  then show ?case by (rule Cons.IH [OF rest])
qed

lemma infer_rules_range:
  "infer_rules rs inp out agg = Inr agg' \<Longrightarrow> \<forall>p\<in>set agg. 0 \<le> snd p \<and> snd p \<le> 1 \<Longrightarrow>
     \<forall>p\<in>set agg'. 0 \<le> snd p \<and> snd p \<le> 1"
proof (induction rs arbitrary: agg)
  case Nil
  then show ?case by simp
next
  case (Cons r rs)
  from Cons.prems(1) obtain d mid where "infer_points d (consequent r) out agg = Inr mid"
    and rest: "infer_rules rs inp out mid = Inr agg'"
    by (auto split: sum.splits)
  then have "\<forall>p\<in>set mid. 0 \<le> snd p \<and> snd p \<le> 1"
    using infer_points_range Cons.prems(2) by blast
  then show ?case by (rule Cons.IH [OF rest])
qed

subsection \<open>The closures of the combinators\<close>

lemma complement_mu_call:
  "MembershipFunction_call (complement_mu A) x =
     (case MembershipFunction_call (mu A) x of Inl e \<Rightarrow> Inl e | Inr v \<Rightarrow> Inr (1 - v))"
  by (auto simp: complement_mu_def MembershipFunction_call_def split: sum.splits)

lemma intersection_mu_call:
  "MembershipFunction_call (intersection_mu A B) x =
     (case MembershipFunction_call (mu A) x of
        Inl e \<Rightarrow> Inl e
      | Inr va \<Rightarrow>
          (case MembershipFunction_call (mu B) x of
             Inl e \<Rightarrow> Inl e
           | Inr vb \<Rightarrow> Inr (min va vb)))"
  by (auto simp: intersection_mu_def MembershipFunction_call_def split: sum.splits)

lemma union_mu_call:
  "MembershipFunction_call (union_mu A B) x =
     (case MembershipFunction_call (mu A) x of
        Inl e \<Rightarrow> Inl e
      | Inr va \<Rightarrow>
          (case MembershipFunction_call (mu B) x of
             Inl e \<Rightarrow> Inl e
           | Inr vb \<Rightarrow> Inr (max va vb)))"
  by (auto simp: union_mu_def MembershipFunction_call_def split: sum.splits)

section \<open>Verification\<close>

text \<open>
  In the statements below a callable "returns" when its model yields \<open>Inr\<close> and "raises"
  when it yields \<open>Inl\<close>. The membership of a FuzzySet \<open>A\<close> at \<open>x\<close> is the call
  \<open>MembershipFunction_call (mu A) x\<close>, which is how the code evaluates it
  (\<^verbatim>\<open>A.mu(x)\<close>).
\<close>

subsection \<open>Evaluation of a MembershipFunction is clamped\<close>

text \<open>
  C3. For every MembershipFunction \<open>f\<close>, whatever its underlying rule returns, and every
  real \<open>x\<close>: when the underlying rule returns a value \<open>r\<close> at \<open>x\<close>, evaluating \<open>f\<close> at \<open>x\<close>
  returns \<open>max 0 (min 1 r)\<close>, which lies between 0 and 1; and a value returned by
  evaluating \<open>f\<close> always lies between 0 and 1. Evaluation raises only what the
  underlying rule raises.
\<close>

theorem membership_call_clamped:
  "(func f x = Inr r \<longrightarrow>
      MembershipFunction_call f x = Inr (max 0 (min 1 r)) \<and> 0 \<le> max 0 (min 1 r) \<and> max 0 (min 1 r) \<le> (1::real))
   \<and> (MembershipFunction_call f x = Inr v \<longrightarrow> 0 \<le> v \<and> v \<le> 1)
   \<and> (MembershipFunction_call f x = Inl e \<longleftrightarrow> func f x = Inl e)"
  by (auto simp: MembershipFunction_call_def split: sum.splits)

theorem membership_call_clamped_witness:
  "func \<lparr>func = (\<lambda>x. Inr (3 * x)), name = Named ''triple''\<rparr> 2 = Inr 6
   \<and> MembershipFunction_call \<lparr>func = (\<lambda>x. Inr (3 * x)), name = Named ''triple''\<rparr> 2 = Inr 1
   \<and> MembershipFunction_call \<lparr>func = (\<lambda>x. Inr (3 * x)), name = Named ''triple''\<rparr> (-2) = Inr 0"
  using membership_call_clamped
    [of "\<lparr>func = (\<lambda>x. Inr (3 * x)), name = Named ''triple''\<rparr>" 2 6 1 OtherError]
  by (simp add: MembershipFunction_call_def)

subsection \<open>Triangular and trapezoidal shapes\<close>

text \<open>
  The set "slow" of the example script, \<^verbatim>\<open>triangular(0, 0, 50)\<close>, has \<open>a = b\<close>. At
  \<open>x = b = 0\<close> the guard \<^verbatim>\<open>x <= a or x >= c\<close> is taken first and the value is 0, not 1,
  whatever the arithmetic.
\<close>

theorem triangular_shoulder_counterexample:
  "\<forall>ar. (0::real) \<le> 0 \<and> (0::real) \<le> 50
     \<and> MembershipFunction_call (triangular ar 0 0 50) 0 = Inr 0
     \<and> MembershipFunction_call (triangular ar 0 0 50) 0 \<noteq> Inr 1"
  by (simp add: MembershipFunction_call_def triangular_def triangular_mu_def)

text \<open>
  C4, as the code has it. For \<open>a \<le> b \<le> c\<close> the function built by
  \<^verbatim>\<open>triangular(a, b, c)\<close> is 0 at \<open>a\<close>, 0 at \<open>c\<close>, and 0 at every \<open>x\<close> with \<open>x \<le> a\<close> or
  \<open>x \<ge> c\<close>. At \<open>b\<close> it is 1 when \<open>a < b < c\<close> and the difference \<^verbatim>\<open>c - b\<close>, as Python
  computes it, is a number \<open>d\<close> other than zero with \<^verbatim>\<open>d / d == 1.0\<close>.
\<close>

theorem triangular_points:
  assumes "a \<le> b" and "b \<le> c"
  shows "MembershipFunction_call (triangular ar a b c) a = Inr 0
    \<and> MembershipFunction_call (triangular ar a b c) c = Inr 0
    \<and> (x \<le> a \<or> c \<le> x \<longrightarrow> MembershipFunction_call (triangular ar a b c) x = Inr 0)
    \<and> (a < b \<and> b < c \<and> py_sub ar c b = Inr d \<and> d \<noteq> 0 \<and> py_truediv ar d d = Inr 1 \<longrightarrow>
          MembershipFunction_call (triangular ar a b c) b = Inr 1)"
  using assms
  by (auto simp: MembershipFunction_call_def triangular_def triangular_mu_def sub_div_def)

theorem triangular_points_witness:
  "\<exists>ar d. py_sub ar 75 50 = Inr d \<and> d \<noteq> 0 \<and> py_truediv ar d d = Inr 1
     \<and> (25::real) \<le> 50 \<and> (50::real) \<le> 75
     \<and> MembershipFunction_call (triangular ar 25 50 75) 25 = Inr 0
     \<and> MembershipFunction_call (triangular ar 25 50 75) 75 = Inr 0
     \<and> MembershipFunction_call (triangular ar 25 50 75) 80 = Inr 0
     \<and> MembershipFunction_call (triangular ar 25 50 75) 50 = Inr 1"
proof -
  let ?ar = "\<lparr>py_add = (\<lambda>x y. Inr (x + y)), py_sub = (\<lambda>x y. Inr (x - y)),
      py_mul = (\<lambda>x y. Inr (x * y)),
      py_truediv = (\<lambda>x y. if y = 0 then Inl ZeroDivisionError else Inr (x / y))\<rparr>"
  have h: "(25::real) \<le> 50" "(50::real) \<le> 75" by simp_all
  have s: "py_sub ?ar 75 50 = Inr 25" "(25::real) \<noteq> 0" "py_truediv ?ar 25 25 = Inr 1"
    by simp_all
  from triangular_points [OF h, of ?ar 80 25] s
  have c: "MembershipFunction_call (triangular ?ar 25 50 75) 25 = Inr 0"
      "MembershipFunction_call (triangular ?ar 25 50 75) 75 = Inr 0"
      "MembershipFunction_call (triangular ?ar 25 50 75) 80 = Inr 0"
      "MembershipFunction_call (triangular ?ar 25 50 75) 50 = Inr 1"
    by simp_all
  show ?thesis
    by (rule exI [of _ ?ar], rule exI [of _ 25]) (intro conjI s h c)
qed

text \<open>
  The set "cold" of the thermostat script, \<^verbatim>\<open>trapezoidal(0, 0, 10, 15)\<close>, has \<open>a = b\<close>.
  At \<open>x = b = 0\<close>, a point of the plateau \<open>[b, c]\<close>, the guard \<^verbatim>\<open>x <= a or x >= d\<close> is
  taken first and the value is 0, not 1, whatever the arithmetic.
\<close>

theorem trapezoidal_shoulder_counterexample:
  "\<forall>ar. (0::real) \<le> 0 \<and> (0::real) \<le> 10 \<and> (10::real) \<le> 15
     \<and> MembershipFunction_call (trapezoidal ar 0 0 10 15) 0 = Inr 0
     \<and> MembershipFunction_call (trapezoidal ar 0 0 10 15) 0 \<noteq> Inr 1"
  by (simp add: MembershipFunction_call_def trapezoidal_def trapezoidal_mu_def)

text \<open>
  C5, as the code has it. For \<open>a \<le> b \<le> c \<le> d\<close> the function built by
  \<^verbatim>\<open>trapezoidal(a, b, c, d)\<close> is 0 at \<open>a\<close>, 0 at \<open>d\<close> and 0 at every \<open>x\<close> with
  \<open>x \<le> a\<close> or \<open>x \<ge> d\<close>, so everywhere outside \<open>[a, d]\<close>. It is 1 at every \<open>x\<close> of \<open>[b, c]\<close>
  that lies strictly between \<open>a\<close> and \<open>d\<close>; so it is 1 at \<open>b\<close> and at \<open>c\<close> when \<open>a < b\<close>
  and \<open>c < d\<close>. None of this depends on the arithmetic.
\<close>

theorem trapezoidal_points:
  assumes "a \<le> b" and "b \<le> c" and "c \<le> d"
  shows "MembershipFunction_call (trapezoidal ar a b c d) a = Inr 0
    \<and> MembershipFunction_call (trapezoidal ar a b c d) d = Inr 0
    \<and> (x \<le> a \<or> d \<le> x \<longrightarrow> MembershipFunction_call (trapezoidal ar a b c d) x = Inr 0)
    \<and> (b \<le> x \<and> x \<le> c \<and> a < x \<and> x < d \<longrightarrow>
          MembershipFunction_call (trapezoidal ar a b c d) x = Inr 1)
    \<and> (a < b \<and> c < d \<longrightarrow>
          MembershipFunction_call (trapezoidal ar a b c d) b = Inr 1
          \<and> MembershipFunction_call (trapezoidal ar a b c d) c = Inr 1)"
  using assms
  by (auto simp: MembershipFunction_call_def trapezoidal_def trapezoidal_mu_def)

theorem trapezoidal_points_witness:
  "\<forall>ar. (30::real) \<le> 35 \<and> (35::real) \<le> 40 \<and> (40::real) \<le> 45
     \<and> MembershipFunction_call (trapezoidal ar 30 35 40 45) 30 = Inr 0
     \<and> MembershipFunction_call (trapezoidal ar 30 35 40 45) 45 = Inr 0
     \<and> MembershipFunction_call (trapezoidal ar 30 35 40 45) 37 = Inr 1
     \<and> MembershipFunction_call (trapezoidal ar 30 35 40 45) 35 = Inr 1
     \<and> MembershipFunction_call (trapezoidal ar 30 35 40 45) 40 = Inr 1"
proof
  fix ar
  have h: "(30::real) \<le> 35" "(35::real) \<le> 40" "(40::real) \<le> 45" by simp_all
  from trapezoidal_points [OF h, of ar 37] show
    "(30::real) \<le> 35 \<and> (35::real) \<le> 40 \<and> (40::real) \<le> 45
     \<and> MembershipFunction_call (trapezoidal ar 30 35 40 45) 30 = Inr 0
     \<and> MembershipFunction_call (trapezoidal ar 30 35 40 45) 45 = Inr 0
     \<and> MembershipFunction_call (trapezoidal ar 30 35 40 45) 37 = Inr 1
     \<and> MembershipFunction_call (trapezoidal ar 30 35 40 45) 35 = Inr 1
     \<and> MembershipFunction_call (trapezoidal ar 30 35 40 45) 40 = Inr 1"
    by simp
qed

text \<open>
  What the guards exclude. A dividing branch is entered only when the two operands of
  its denominator differ. So no evaluation raises \<^verbatim>\<open>ZeroDivisionError\<close> as long as a
  subtraction returns zero only for equal operands, which is so for operands that are
  all ints (the difference is exact) and not for an int and a float beyond \<open>2 ^ 53\<close>.
\<close>

lemma sub_div_ZeroDivisionError:
  assumes "\<And>p q. py_sub ar p q \<noteq> Inl ZeroDivisionError"
    and "\<And>n d. py_truediv ar n d = Inl ZeroDivisionError \<Longrightarrow> d = 0"
    and "\<And>d. py_sub ar r s = Inr d \<Longrightarrow> d = 0 \<Longrightarrow> r = s"
    and "r \<noteq> s"
  shows "sub_div ar p q r s \<noteq> Inl ZeroDivisionError"
  using assms by (auto simp: sub_div_def split: sum.splits)

lemma guards_exclude_zero_divisor:
  assumes "\<And>p q. py_sub ar p q \<noteq> Inl ZeroDivisionError"
    and "\<And>n d. py_truediv ar n d = Inl ZeroDivisionError \<Longrightarrow> d = 0"
    and "\<And>p q r. py_sub ar p q = Inr r \<Longrightarrow> r = 0 \<Longrightarrow> p = q"
  shows "triangular_mu ar a b c x \<noteq> Inl ZeroDivisionError"
    and "trapezoidal_mu ar a b c d x \<noteq> Inl ZeroDivisionError"
proof -
  have sd: "sub_div ar p q r s \<noteq> Inl ZeroDivisionError" if "r \<noteq> s" for p q r s
    using assms that by (intro sub_div_ZeroDivisionError) auto
  show "triangular_mu ar a b c x \<noteq> Inl ZeroDivisionError"
    unfolding triangular_mu_def using sd [of b a x a] sd [of c b c x] by auto
  show "trapezoidal_mu ar a b c d x \<noteq> Inl ZeroDivisionError"
    unfolding trapezoidal_mu_def using sd [of b a x a] sd [of d c d x] by auto
qed

text \<open>
  C10 fails in the code at \<^verbatim>\<open>triangular(0, 2.0**53, 2**53 + 1)\<close>, evaluated at
  \<^verbatim>\<open>x = 2.0**53\<close>. The parameters are ordered, \<open>0 < 2 ^ 53 < 2 ^ 53 + 1\<close>, and the guards,
  which compare the values, let \<open>x\<close> through to the falling branch. There Python converts
  the int \<open>2 ^ 53 + 1\<close> to the float \<open>2 ^ 53\<close>, so \<^verbatim>\<open>c - x\<close> and \<^verbatim>\<open>c - b\<close> are both
  \<^verbatim>\<open>0.0\<close>, and \<^verbatim>\<open>0.0 / 0.0\<close> raises \<^verbatim>\<open>ZeroDivisionError\<close>. The theorem follows the
  evaluation for every arithmetic that behaves so at these operands.
\<close>

theorem triangular_zero_divisor:
  assumes "py_sub ar (2 ^ 53 + 1) (2 ^ 53) = Inr 0"
    and "py_truediv ar 0 0 = Inl ZeroDivisionError"
  shows "(0::real) < 2 ^ 53 \<and> (2::real) ^ 53 < 2 ^ 53 + 1
    \<and> triangular_mu ar 0 (2 ^ 53) (2 ^ 53 + 1) (2 ^ 53) = Inl ZeroDivisionError
    \<and> MembershipFunction_call (triangular ar 0 (2 ^ 53) (2 ^ 53 + 1)) (2 ^ 53) =
        Inl ZeroDivisionError"
  using assms
  by (simp add: MembershipFunction_call_def triangular_def triangular_mu_def sub_div_def)

theorem triangular_zero_divisor_witness:
  "\<exists>ar. py_sub ar (2 ^ 53 + 1) (2 ^ 53) = Inr 0
     \<and> py_truediv ar 0 0 = Inl ZeroDivisionError
     \<and> MembershipFunction_call (triangular ar 0 (2 ^ 53) (2 ^ 53 + 1)) (2 ^ 53) =
         Inl ZeroDivisionError"
proof -
  let ?ar = "\<lparr>py_add = (\<lambda>x y. Inr (x + y)),
      py_sub = (\<lambda>x y. if x = 2 ^ 53 + 1 \<and> y = 2 ^ 53 then Inr 0 else Inr (x - y)),
      py_mul = (\<lambda>x y. Inr (x * y)),
      py_truediv = (\<lambda>x y. if y = 0 then Inl ZeroDivisionError else Inr (x / y))\<rparr>"
  have h: "py_sub ?ar (2 ^ 53 + 1) (2 ^ 53) = Inr 0" "py_truediv ?ar 0 0 = Inl ZeroDivisionError"
    by simp_all
  note c = triangular_zero_divisor [OF h]
  show ?thesis
    by (rule exI [of _ ?ar]) (intro conjI h c [THEN conjunct2, THEN conjunct2, THEN conjunct2])
qed

subsection \<open>FuzzySet: the cached table and the algebra\<close>

text \<open>
  C8. When the constructor of FuzzySet returns a set \<open>S\<close> for a membership function \<open>m\<close>
  and a universe \<open>u\<close>, the keys of the cached table are exactly the points of \<open>u\<close>, each
  once, in the order of their first occurrence in \<open>u\<close> (so the key sequence is a
  subsequence of \<open>u\<close>, and is \<open>u\<close> itself when \<open>u\<close> has no repeated point), and every
  cached value lies between 0 and 1. The constructor returns exactly when \<open>m\<close> returns
  at every point of \<open>u\<close>.
\<close>

theorem fuzzy_set_cache:
  "(FuzzySet_init m u = Inr S \<longrightarrow>
      mu S = m \<and> universe S = u
      \<and> map fst (members S) = rev (remdups (rev u))
      \<and> distinct (map fst (members S))
      \<and> set (map fst (members S)) = set u
      \<and> subseq (map fst (members S)) u
      \<and> (distinct u \<longrightarrow> map fst (members S) = u)
      \<and> (\<forall>p\<in>set (members S). 0 \<le> snd p \<and> snd p \<le> 1))
   \<and> ((\<exists>S'. FuzzySet_init m u = Inr S') \<longleftrightarrow>
        (\<forall>x\<in>set u. \<exists>v. MembershipFunction_call m x = Inr v))"
proof -
  have "mu S = m \<and> universe S = u
      \<and> map fst (members S) = rev (remdups (rev u))
      \<and> (\<forall>p\<in>set (members S). 0 \<le> snd p \<and> snd p \<le> 1)"
    if "FuzzySet_init m u = Inr S"
  proof -
    from that obtain d where d: "build_members m u [] = Inr d"
      and S: "S = \<lparr>mu = m, universe = u, members = d\<rparr>"
      by (auto simp: FuzzySet_init_def split: sum.splits)
    show ?thesis
      using build_members_keys [OF d] build_members_values [OF d] S by simp
  qed
  moreover have "distinct (rev (remdups (rev u)))" "set (rev (remdups (rev u))) = set u"
    by simp_all
  moreover have "distinct u \<longrightarrow> rev (remdups (rev u)) = u"
    by (simp add: distinct_remdups_id)
  ultimately show ?thesis
    using FuzzySet_init_returns [of m u] first_occ_subseq [of u] by metis
qed

theorem fuzzy_set_cache_witness:
  "FuzzySet_init \<lparr>func = (\<lambda>x. if x < 3 then Inr (1 / 4) else Inr (3 / 2)), name = Named ''high''\<rparr> [1, 4, 1] =
      Inr \<lparr>mu = \<lparr>func = (\<lambda>x. if x < 3 then Inr (1 / 4) else Inr (3 / 2)), name = Named ''high''\<rparr>, universe = [1, 4, 1], members = [(1, 1 / 4), (4, 1)]\<rparr>
   \<and> map fst [(1::real, 1 / 4 :: real), (4, 1)] = rev (remdups (rev [1, 4, 1]))
   \<and> subseq [1::real, 4] [1, 4, 1]
   \<and> FuzzySet_init \<lparr>func = (\<lambda>x. if x < 3 then Inr (1 / 4) else Inr (3 / 2)), name = Named ''high''\<rparr> [1, 2, 5] =
      Inr \<lparr>mu = \<lparr>func = (\<lambda>x. if x < 3 then Inr (1 / 4) else Inr (3 / 2)), name = Named ''high''\<rparr>, universe = [1, 2, 5], members = [(1, 1 / 4), (2, 1 / 4), (5, 1)]\<rparr>
   \<and> distinct [1::real, 2, 5]
   \<and> map fst [(1::real, 1 / 4 :: real), (2, 1 / 4), (5, 1)] = [1, 2, 5]"
proof -
  let ?m = "\<lparr>func = (\<lambda>x. if x < 3 then Inr (1 / 4) else Inr (3 / 2)), name = Named ''high''\<rparr>"
  have a: "FuzzySet_init ?m [1, 4, 1] =
      Inr \<lparr>mu = ?m, universe = [1, 4, 1], members = [(1, 1 / 4), (4, 1)]\<rparr>"
    by (simp add: FuzzySet_init_def MembershipFunction_call_def)
  have b: "FuzzySet_init ?m [1, 2, 5] =
      Inr \<lparr>mu = ?m, universe = [1, 2, 5], members = [(1, 1 / 4), (2, 1 / 4), (5, 1)]\<rparr>"
    by (simp add: FuzzySet_init_def MembershipFunction_call_def)
  show ?thesis
    using a b
      fuzzy_set_cache [of ?m "[1, 4, 1]"
        "\<lparr>mu = ?m, universe = [1, 4, 1], members = [(1, 1 / 4), (4, 1)]\<rparr>"]
      fuzzy_set_cache [of ?m "[1, 2, 5]"
        "\<lparr>mu = ?m, universe = [1, 2, 5], members = [(1, 1 / 4), (2, 1 / 4), (5, 1)]\<rparr>"]
    by simp
qed

text \<open>
  C6. For FuzzySets \<open>A\<close> and \<open>B\<close> and every real \<open>x\<close> where their memberships return
  \<open>va\<close> and \<open>vb\<close>: the membership of \<^verbatim>\<open>A.complement()\<close> at \<open>x\<close> is \<open>1 - va\<close>, that of
  \<^verbatim>\<open>union(A, B)\<close> is \<open>max va vb\<close>, and that of \<^verbatim>\<open>intersection(A, B)\<close> is
  \<open>min va vb\<close>. The three combinators return a set whenever the operands' memberships
  return at every point of the universe of \<open>A\<close>.
\<close>

theorem fuzzy_set_algebra:
  "(FuzzySet_complement A = Inr C \<and> MembershipFunction_call (mu A) x = Inr va \<longrightarrow>
      MembershipFunction_call (mu C) x = Inr (1 - va))
   \<and> (FuzzySet_union A B = Inr U \<and> MembershipFunction_call (mu A) x = Inr va
        \<and> MembershipFunction_call (mu B) x = Inr vb \<longrightarrow>
      MembershipFunction_call (mu U) x = Inr (max va vb))
   \<and> (FuzzySet_intersection A B = Inr I \<and> MembershipFunction_call (mu A) x = Inr va
        \<and> MembershipFunction_call (mu B) x = Inr vb \<longrightarrow>
      MembershipFunction_call (mu I) x = Inr (min va vb))
   \<and> ((\<forall>u\<in>set (universe A). \<exists>v. MembershipFunction_call (mu A) u = Inr v) \<longrightarrow>
        (\<exists>C'. FuzzySet_complement A = Inr C'))
   \<and> ((\<forall>u\<in>set (universe A). (\<exists>v. MembershipFunction_call (mu A) u = Inr v)
          \<and> (\<exists>v. MembershipFunction_call (mu B) u = Inr v)) \<longrightarrow>
        (\<exists>U'. FuzzySet_union A B = Inr U') \<and> (\<exists>I'. FuzzySet_intersection A B = Inr I'))"
proof (intro conjI impI)
  assume "FuzzySet_complement A = Inr C \<and> MembershipFunction_call (mu A) x = Inr va"
  then show "MembershipFunction_call (mu C) x = Inr (1 - va)"
    using FuzzySet_init_fields [of "complement_mu A" "universe A" C]
    by (simp add: FuzzySet_complement_def complement_mu_call)
next
  assume "FuzzySet_union A B = Inr U \<and> MembershipFunction_call (mu A) x = Inr va
        \<and> MembershipFunction_call (mu B) x = Inr vb"
  then show "MembershipFunction_call (mu U) x = Inr (max va vb)"
    using FuzzySet_init_fields [of "union_mu A B" "universe A" U]
    by (simp add: FuzzySet_union_def union_mu_call)
next
  assume "FuzzySet_intersection A B = Inr I \<and> MembershipFunction_call (mu A) x = Inr va
        \<and> MembershipFunction_call (mu B) x = Inr vb"
  then show "MembershipFunction_call (mu I) x = Inr (min va vb)"
    using FuzzySet_init_fields [of "intersection_mu A B" "universe A" I]
    by (simp add: FuzzySet_intersection_def intersection_mu_call)
next
  assume "\<forall>u\<in>set (universe A). \<exists>v. MembershipFunction_call (mu A) u = Inr v"
  then have "\<forall>u\<in>set (universe A). \<exists>v. MembershipFunction_call (complement_mu A) u = Inr v"
    by (auto simp: complement_mu_call)
  then show "\<exists>C'. FuzzySet_complement A = Inr C'"
    unfolding FuzzySet_complement_def FuzzySet_init_returns .
next
  assume both: "\<forall>u\<in>set (universe A). (\<exists>v. MembershipFunction_call (mu A) u = Inr v)
          \<and> (\<exists>v. MembershipFunction_call (mu B) u = Inr v)"
  then have "\<forall>u\<in>set (universe A). \<exists>v. MembershipFunction_call (union_mu A B) u = Inr v"
    by (auto simp: union_mu_call)
  then show "\<exists>U'. FuzzySet_union A B = Inr U'"
    unfolding FuzzySet_union_def FuzzySet_init_returns .
  from both have "\<forall>u\<in>set (universe A). \<exists>v. MembershipFunction_call (intersection_mu A B) u = Inr v"
    by (auto simp: intersection_mu_call)
  then show "\<exists>I'. FuzzySet_intersection A B = Inr I'"
    unfolding FuzzySet_intersection_def FuzzySet_init_returns .
qed

theorem fuzzy_set_algebra_witness:
  "FuzzySet_complement \<lparr>mu = \<lparr>func = (\<lambda>x. if x < 3 then Inr (3 / 4) else Inr (1 / 4)), name = Named ''low''\<rparr>,
              universe = [1], members = [(1, 3 / 4)]\<rparr> =
      Inr \<lparr>mu = complement_mu \<lparr>mu = \<lparr>func = (\<lambda>x. if x < 3 then Inr (3 / 4) else Inr (1 / 4)), name = Named ''low''\<rparr>,
              universe = [1], members = [(1, 3 / 4)]\<rparr>, universe = [1], members = [(1, 1 / 4)]\<rparr>
   \<and> FuzzySet_union \<lparr>mu = \<lparr>func = (\<lambda>x. if x < 3 then Inr (3 / 4) else Inr (1 / 4)), name = Named ''low''\<rparr>,
              universe = [1], members = [(1, 3 / 4)]\<rparr> \<lparr>mu = \<lparr>func = (\<lambda>x. if x < 3 then Inr (1 / 4) else Inr (3 / 2)), name = Named ''high''\<rparr>,
              universe = [4], members = [(4, 1)]\<rparr> =
      Inr \<lparr>mu = union_mu \<lparr>mu = \<lparr>func = (\<lambda>x. if x < 3 then Inr (3 / 4) else Inr (1 / 4)), name = Named ''low''\<rparr>,
              universe = [1], members = [(1, 3 / 4)]\<rparr> \<lparr>mu = \<lparr>func = (\<lambda>x. if x < 3 then Inr (1 / 4) else Inr (3 / 2)), name = Named ''high''\<rparr>,
              universe = [4], members = [(4, 1)]\<rparr>, universe = [1], members = [(1, 3 / 4)]\<rparr>
   \<and> FuzzySet_intersection \<lparr>mu = \<lparr>func = (\<lambda>x. if x < 3 then Inr (3 / 4) else Inr (1 / 4)), name = Named ''low''\<rparr>,
              universe = [1], members = [(1, 3 / 4)]\<rparr> \<lparr>mu = \<lparr>func = (\<lambda>x. if x < 3 then Inr (1 / 4) else Inr (3 / 2)), name = Named ''high''\<rparr>,
              universe = [4], members = [(4, 1)]\<rparr> =
      Inr \<lparr>mu = intersection_mu \<lparr>mu = \<lparr>func = (\<lambda>x. if x < 3 then Inr (3 / 4) else Inr (1 / 4)), name = Named ''low''\<rparr>,
              universe = [1], members = [(1, 3 / 4)]\<rparr> \<lparr>mu = \<lparr>func = (\<lambda>x. if x < 3 then Inr (1 / 4) else Inr (3 / 2)), name = Named ''high''\<rparr>,
              universe = [4], members = [(4, 1)]\<rparr>, universe = [1], members = [(1, 1 / 4)]\<rparr>
   \<and> MembershipFunction_call (mu \<lparr>mu = \<lparr>func = (\<lambda>x. if x < 3 then Inr (3 / 4) else Inr (1 / 4)), name = Named ''low''\<rparr>,
              universe = [1], members = [(1, 3 / 4)]\<rparr>) (5 / 2) = Inr (3 / 4)
   \<and> MembershipFunction_call (mu \<lparr>mu = \<lparr>func = (\<lambda>x. if x < 3 then Inr (1 / 4) else Inr (3 / 2)), name = Named ''high''\<rparr>,
              universe = [4], members = [(4, 1)]\<rparr>) (5 / 2) = Inr (1 / 4)
   \<and> MembershipFunction_call (complement_mu \<lparr>mu = \<lparr>func = (\<lambda>x. if x < 3 then Inr (3 / 4) else Inr (1 / 4)), name = Named ''low''\<rparr>,
              universe = [1], members = [(1, 3 / 4)]\<rparr>) (5 / 2) = Inr (1 / 4)
   \<and> MembershipFunction_call (union_mu \<lparr>mu = \<lparr>func = (\<lambda>x. if x < 3 then Inr (3 / 4) else Inr (1 / 4)), name = Named ''low''\<rparr>,
              universe = [1], members = [(1, 3 / 4)]\<rparr> \<lparr>mu = \<lparr>func = (\<lambda>x. if x < 3 then Inr (1 / 4) else Inr (3 / 2)), name = Named ''high''\<rparr>,
              universe = [4], members = [(4, 1)]\<rparr>) (5 / 2) = Inr (3 / 4)
   \<and> MembershipFunction_call (intersection_mu \<lparr>mu = \<lparr>func = (\<lambda>x. if x < 3 then Inr (3 / 4) else Inr (1 / 4)), name = Named ''low''\<rparr>,
              universe = [1], members = [(1, 3 / 4)]\<rparr> \<lparr>mu = \<lparr>func = (\<lambda>x. if x < 3 then Inr (1 / 4) else Inr (3 / 2)), name = Named ''high''\<rparr>,
              universe = [4], members = [(4, 1)]\<rparr>) (5 / 2) = Inr (1 / 4)"
proof -
  let ?A = "\<lparr>mu = \<lparr>func = (\<lambda>x. if x < 3 then Inr (3 / 4) else Inr (1 / 4)), name = Named ''low''\<rparr>,
              universe = [1], members = [(1, 3 / 4)]\<rparr>"
  let ?B = "\<lparr>mu = \<lparr>func = (\<lambda>x. if x < 3 then Inr (1 / 4) else Inr (3 / 2)), name = Named ''high''\<rparr>,
              universe = [4], members = [(4, 1)]\<rparr>"
  let ?C = "\<lparr>mu = complement_mu ?A, universe = [1], members = [(1, 1 / 4)]\<rparr>"
  let ?U = "\<lparr>mu = union_mu ?A ?B, universe = [1], members = [(1, 3 / 4)]\<rparr>"
  let ?I = "\<lparr>mu = intersection_mu ?A ?B, universe = [1], members = [(1, 1 / 4)]\<rparr>"
  have a: "MembershipFunction_call (mu ?A) (5 / 2) = Inr (3 / 4)"
    by (simp add: MembershipFunction_call_def)
  have b: "MembershipFunction_call (mu ?B) (5 / 2) = Inr (1 / 4)"
    by (simp add: MembershipFunction_call_def)
  have a1: "MembershipFunction_call (mu ?A) 1 = Inr (3 / 4)"
    by (simp add: MembershipFunction_call_def)
  have b1: "MembershipFunction_call (mu ?B) 1 = Inr (1 / 4)"
    by (simp add: MembershipFunction_call_def)
  have c: "FuzzySet_complement ?A = Inr ?C"
    using a1 by (simp add: FuzzySet_complement_def FuzzySet_init_def complement_mu_call)
  have u: "FuzzySet_union ?A ?B = Inr ?U"
    using a1 b1 by (simp add: FuzzySet_union_def FuzzySet_init_def union_mu_call)
  have i: "FuzzySet_intersection ?A ?B = Inr ?I"
    using a1 b1 by (simp add: FuzzySet_intersection_def FuzzySet_init_def intersection_mu_call)
  from fuzzy_set_algebra [where A = ?A and B = ?B and C = ?C and U = ?U and I = ?I
      and x = "5 / 2" and va = "3 / 4" and vb = "1 / 4"] a b c u i
  show ?thesis by simp
qed

subsection \<open>Inference\<close>

text \<open>
  The aggregation starts from 0. When every callable returns, \<^verbatim>\<open>infer\<close> maps
  every output point to the largest of 0 and the clipped consequent degrees of all rules,
  whatever the antecedents' degrees; that is the largest clipped degree alone as soon
  as one rule's degree is not negative.
\<close>

lemma infer_max_from_zero:
  assumes "\<forall>r\<in>set (rules self). antecedent r inputs = Inr (degree r) \<and>
       (\<forall>y\<in>set (output_range self). MembershipFunction_call (mu (consequent r)) y = Inr (cm r y))"
  shows "\<exists>aggregated. infer self inputs = Inr aggregated
     \<and> map fst aggregated = rev (remdups (rev (output_range self)))
     \<and> (\<forall>y\<in>set (output_range self).
           dict_get aggregated y =
             Inr (Max (insert 0 ((\<lambda>r. min (degree r) (cm r y)) ` set (rules self)))))
     \<and> (\<forall>y\<in>set (output_range self). (\<exists>r\<in>set (rules self). 0 \<le> degree r) \<longrightarrow>
           dict_get aggregated y = Inr (Max ((\<lambda>r. min (degree r) (cm r y)) ` set (rules self))))
     \<and> (rules self = [] \<longrightarrow> (\<forall>y\<in>set (output_range self). dict_get aggregated y = Inr 0))"
proof -
  let ?ks = "rev (remdups (rev (output_range self)))"
  let ?g = "\<lambda>k. Max (insert 0 ((\<lambda>r. min (degree r) (cm r k)) ` set (rules self)))"
  have inf: "infer self inputs = Inr (map (\<lambda>k. (k, ?g k)) ?ks)"
    using assms by (rule infer_closed)
  have keys: "map fst (map (\<lambda>k. (k, ?g k)) ?ks) = ?ks"
    by (simp add: comp_def)
  have get: "dict_get (map (\<lambda>k. (k, ?g k)) ?ks) y = Inr (?g y)" if "y \<in> set (output_range self)" for y
    using that by (intro dict_get_closed) simp
  have pos: "?g y = Max ((\<lambda>r. min (degree r) (cm r y)) ` set (rules self))"
    if y: "y \<in> set (output_range self)" and r: "r \<in> set (rules self)" "0 \<le> degree r" for y r
  proof -
    let ?A = "(\<lambda>r. min (degree r) (cm r y)) ` set (rules self)"
    have "MembershipFunction_call (mu (consequent r)) y = Inr (cm r y)"
      using assms y r(1) by blast
    then have "0 \<le> cm r y"
      using call_in_unit_interval by blast
    then have "0 \<le> min (degree r) (cm r y)" using r(2) by simp
    moreover have "min (degree r) (cm r y) \<in> ?A" using r(1) by blast
    moreover have fin: "finite ?A" by simp
    ultimately have "0 \<le> Max ?A"
      by (meson Max_ge order_trans)
    moreover have "?A \<noteq> {}" using r(1) by auto
    ultimately show ?thesis using fin by (simp add: max_absorb2)
  qed
  have empty: "?g y = 0" if "rules self = []" for y
    using that by simp
  show ?thesis
  proof (intro exI [of _ "map (\<lambda>k. (k, ?g k)) ?ks"] conjI ballI impI)
    show "infer self inputs = Inr (map (\<lambda>k. (k, ?g k)) ?ks)" by (rule inf)
    show "map fst (map (\<lambda>k. (k, ?g k)) ?ks) = ?ks" by (rule keys)
    show "dict_get (map (\<lambda>k. (k, ?g k)) ?ks) y = Inr (?g y)"
      if "y \<in> set (output_range self)" for y
      using that by (rule get)
    show "dict_get (map (\<lambda>k. (k, ?g k)) ?ks) y =
        Inr (Max ((\<lambda>r. min (degree r) (cm r y)) ` set (rules self)))"
      if "y \<in> set (output_range self)" "\<exists>r\<in>set (rules self). 0 \<le> degree r" for y
      using that get [of y] pos [of y] by force
    show "dict_get (map (\<lambda>k. (k, ?g k)) ?ks) y = Inr 0"
      if "rules self = []" "y \<in> set (output_range self)" for y
      using that get [of y] empty [of y] by simp
  qed
qed

text \<open>
  C1. Let every rule's antecedent return, on the input record, a firing degree between
  0 and 1, and every rule's consequent membership return at every output point. Then
  \<^verbatim>\<open>infer\<close> returns a mapping whose keys are the output points (in order of first
  occurrence) and which maps every output point \<open>y\<close> to the maximum over all rules of
  \<open>min (degree, consequent membership at y)\<close>, and to 0 when the rule sequence is empty.
\<close>

theorem infer_aggregates_max_min:
  assumes "\<forall>r\<in>set (rules self). antecedent r inputs = Inr (degree r) \<and>
       0 \<le> degree r \<and> degree r \<le> 1 \<and>
       (\<forall>y\<in>set (output_range self). MembershipFunction_call (mu (consequent r)) y = Inr (cm r y))"
  shows "\<exists>aggregated. infer self inputs = Inr aggregated
     \<and> map fst aggregated = rev (remdups (rev (output_range self)))
     \<and> (\<forall>y\<in>set (output_range self).
           dict_get aggregated y =
             Inr (if rules self = [] then 0
                  else Max ((\<lambda>r. min (degree r) (cm r y)) ` set (rules self))))"
proof -
  have ret: "\<forall>r\<in>set (rules self). antecedent r inputs = Inr (degree r) \<and>
       (\<forall>y\<in>set (output_range self). MembershipFunction_call (mu (consequent r)) y = Inr (cm r y))"
    using assms by blast
  from infer_max_from_zero [OF ret] obtain aggregated where
    inf: "infer self inputs = Inr aggregated"
    and keys: "map fst aggregated = rev (remdups (rev (output_range self)))"
    and pos: "\<forall>y\<in>set (output_range self). (\<exists>r\<in>set (rules self). 0 \<le> degree r) \<longrightarrow>
           dict_get aggregated y = Inr (Max ((\<lambda>r. min (degree r) (cm r y)) ` set (rules self)))"
    and empty: "rules self = [] \<longrightarrow> (\<forall>y\<in>set (output_range self). dict_get aggregated y = Inr 0)"
    by blast
  have "dict_get aggregated y =
      Inr (if rules self = [] then 0
           else Max ((\<lambda>r. min (degree r) (cm r y)) ` set (rules self)))"
    if y: "y \<in> set (output_range self)" for y
  proof (cases "rules self = []")
    case True
    then show ?thesis using empty y by simp
  next
    case False
    then obtain r where "r \<in> set (rules self)"
      by (cases "rules self") auto
    then have "\<exists>r\<in>set (rules self). 0 \<le> degree r"
      using assms by blast
    then show ?thesis using pos y False by simp
  qed
  then show ?thesis using inf keys by blast
qed

theorem infer_aggregates_max_min_witness:
  "antecedent \<lparr>antecedent = (\<lambda>inp. case inp ''speed'' of
                      None \<Rightarrow> Inl KeyError
                    | Some x \<Rightarrow> MembershipFunction_call \<lparr>func = (\<lambda>x. if x < 3 then Inr (3 / 4) else Inr (1 / 4)), name = Named ''low''\<rparr> x),
              consequent = \<lparr>mu = \<lparr>func = (\<lambda>x. if x < 3 then Inr (1 / 4) else Inr (3 / 2)), name = Named ''high''\<rparr>, universe = [], members = []\<rparr>\<rparr> [''speed'' \<mapsto> 2] = Inr (3 / 4)
   \<and> antecedent \<lparr>antecedent = (\<lambda>inp. Inr (1 / 2)),
              consequent = \<lparr>mu = \<lparr>func = (\<lambda>x. if x < 3 then Inr (3 / 4) else Inr (1 / 4)), name = Named ''low''\<rparr>, universe = [], members = []\<rparr>\<rparr> [''speed'' \<mapsto> 2] = Inr (1 / 2)
   \<and> (\<exists>aggregated.
        infer \<lparr>fis_universe = [], output_range = [1, 4], rules = [\<lparr>antecedent = (\<lambda>inp. case inp ''speed'' of
                      None \<Rightarrow> Inl KeyError
                    | Some x \<Rightarrow> MembershipFunction_call \<lparr>func = (\<lambda>x. if x < 3 then Inr (3 / 4) else Inr (1 / 4)), name = Named ''low''\<rparr> x),
              consequent = \<lparr>mu = \<lparr>func = (\<lambda>x. if x < 3 then Inr (1 / 4) else Inr (3 / 2)), name = Named ''high''\<rparr>, universe = [], members = []\<rparr>\<rparr>, \<lparr>antecedent = (\<lambda>inp. Inr (1 / 2)),
              consequent = \<lparr>mu = \<lparr>func = (\<lambda>x. if x < 3 then Inr (3 / 4) else Inr (1 / 4)), name = Named ''low''\<rparr>, universe = [], members = []\<rparr>\<rparr>]\<rparr>
          [''speed'' \<mapsto> 2] = Inr aggregated
        \<and> map fst aggregated = [1, 4]
        \<and> dict_get aggregated 1 = Inr (1 / 2)
        \<and> dict_get aggregated 4 = Inr (3 / 4))
   \<and> (\<exists>aggregated.
        infer \<lparr>fis_universe = [], output_range = [1, 4], rules = []\<rparr>
          [''speed'' \<mapsto> 2] = Inr aggregated
        \<and> map fst aggregated = [1, 4]
        \<and> dict_get aggregated 1 = Inr 0
        \<and> dict_get aggregated 4 = Inr 0)"
proof -
  let ?R1 = "\<lparr>antecedent = (\<lambda>inp. case inp ''speed'' of
                      None \<Rightarrow> Inl KeyError
                    | Some x \<Rightarrow> MembershipFunction_call \<lparr>func = (\<lambda>x. if x < 3 then Inr (3 / 4) else Inr (1 / 4)), name = Named ''low''\<rparr> x),
              consequent = \<lparr>mu = \<lparr>func = (\<lambda>x. if x < 3 then Inr (1 / 4) else Inr (3 / 2)), name = Named ''high''\<rparr>, universe = [], members = []\<rparr>\<rparr>"
  let ?R2 = "\<lparr>antecedent = (\<lambda>inp. Inr (1 / 2)),
              consequent = \<lparr>mu = \<lparr>func = (\<lambda>x. if x < 3 then Inr (3 / 4) else Inr (1 / 4)), name = Named ''low''\<rparr>, universe = [], members = []\<rparr>\<rparr>"
  let ?S = "\<lparr>fis_universe = [], output_range = [1, 4], rules = [?R1, ?R2]\<rparr>"
  let ?E = "\<lparr>fis_universe = [], output_range = [1, 4], rules = []\<rparr>"
  let ?deg = "\<lambda>r. if r = ?R2 then 1 / 2 else (3 / 4 :: real)"
  let ?cm = "\<lambda>r y. if r = ?R2 then (if y < 3 then 3 / 4 else 1 / 4)
                      else (if y < 3 then 1 / 4 else (1::real))"
  have ne: "?R1 \<noteq> ?R2"
  proof
    assume "?R1 = ?R2"
    then have "antecedent ?R1 Map.empty = antecedent ?R2 Map.empty" by (rule arg_cong)
    then show False by simp
  qed
  have d1: "antecedent ?R1 [''speed'' \<mapsto> 2] = Inr (3 / 4)"
    by (simp add: MembershipFunction_call_def)
  have d2: "antecedent ?R2 [''speed'' \<mapsto> 2] = Inr (1 / 2)"
    by simp
  have hyp: "\<forall>r\<in>set (rules ?S). antecedent r [''speed'' \<mapsto> 2] = Inr (?deg r) \<and>
       0 \<le> ?deg r \<and> ?deg r \<le> 1 \<and>
       (\<forall>y\<in>set (output_range ?S).
          MembershipFunction_call (mu (consequent r)) y = Inr (?cm r y))"
    using ne d1 by (simp add: MembershipFunction_call_def)
  have hypE: "\<forall>r\<in>set (rules ?E). antecedent r [''speed'' \<mapsto> 2] = Inr (?deg r) \<and>
       0 \<le> ?deg r \<and> ?deg r \<le> 1 \<and>
       (\<forall>y\<in>set (output_range ?E).
          MembershipFunction_call (mu (consequent r)) y = Inr (?cm r y))"
    by simp
  have a: "\<exists>aggregated. infer ?S [''speed'' \<mapsto> 2] = Inr aggregated
        \<and> map fst aggregated = [1, 4]
        \<and> dict_get aggregated 1 = Inr (1 / 2)
        \<and> dict_get aggregated 4 = Inr (3 / 4)"
    using infer_aggregates_max_min [OF hyp] ne by simp
  have b: "\<exists>aggregated. infer ?E [''speed'' \<mapsto> 2] = Inr aggregated
        \<and> map fst aggregated = [1, 4]
        \<and> dict_get aggregated 1 = Inr 0
        \<and> dict_get aggregated 4 = Inr 0"
    using infer_aggregates_max_min [OF hypE] by simp
  from d1 d2 a b show ?thesis by blast
qed

text \<open>
  C9. Every value of a mapping returned by \<^verbatim>\<open>infer\<close> lies between 0 and 1, whatever
  degrees the antecedents return (negative or greater than 1 included): the aggregation
  starts at 0 and each contribution is capped by the clamped consequent membership.
\<close>

theorem infer_values_in_unit_interval:
  assumes "infer self inputs = Inr aggregated" and "(y, v) \<in> set aggregated"
  shows "0 \<le> v \<and> v \<le> 1"
proof -
  have "\<forall>p\<in>set (zero_dict (output_range self) []). snd p = 0"
    by (rule zero_dict_values) simp
  then have "\<forall>p\<in>set (zero_dict (output_range self) []). 0 \<le> snd p \<and> snd p \<le> 1"
    by simp
  with assms(1) have "\<forall>p\<in>set aggregated. 0 \<le> snd p \<and> snd p \<le> 1"
    unfolding infer_def by (rule infer_rules_range)
  with assms(2) show ?thesis by auto
qed

theorem infer_values_in_unit_interval_witness:
  "antecedent \<lparr>antecedent = (\<lambda>inp. Inr 7), consequent = \<lparr>mu = \<lparr>func = (\<lambda>x. if x < 3 then Inr (3 / 4) else Inr (1 / 4)), name = Named ''low''\<rparr>,
              universe = [1], members = [(1, 3 / 4)]\<rparr>\<rparr> Map.empty = Inr 7
   \<and> antecedent \<lparr>antecedent = (\<lambda>inp. Inr (- 3)), consequent = \<lparr>mu = \<lparr>func = (\<lambda>x. if x < 3 then Inr (3 / 4) else Inr (1 / 4)), name = Named ''low''\<rparr>,
              universe = [1], members = [(1, 3 / 4)]\<rparr>\<rparr> Map.empty = Inr (- 3)
   \<and> infer \<lparr>fis_universe = [], output_range = [1, 5],
        rules = [\<lparr>antecedent = (\<lambda>inp. Inr 7), consequent = \<lparr>mu = \<lparr>func = (\<lambda>x. if x < 3 then Inr (3 / 4) else Inr (1 / 4)), name = Named ''low''\<rparr>,
              universe = [1], members = [(1, 3 / 4)]\<rparr>\<rparr>,
                 \<lparr>antecedent = (\<lambda>inp. Inr (- 3)), consequent = \<lparr>mu = \<lparr>func = (\<lambda>x. if x < 3 then Inr (3 / 4) else Inr (1 / 4)), name = Named ''low''\<rparr>,
              universe = [1], members = [(1, 3 / 4)]\<rparr>\<rparr>]\<rparr>
        Map.empty = Inr [(1, 3 / 4), (5, 1 / 4)]
   \<and> (1, 3 / 4) \<in> set [(1::real, 3 / 4 :: real), (5, 1 / 4)]
   \<and> (0::real) \<le> 3 / 4 \<and> (3 / 4 :: real) \<le> 1"
proof -
  let ?S = "\<lparr>fis_universe = [], output_range = [1, 5],
        rules = [\<lparr>antecedent = (\<lambda>inp. Inr 7), consequent = \<lparr>mu = \<lparr>func = (\<lambda>x. if x < 3 then Inr (3 / 4) else Inr (1 / 4)), name = Named ''low''\<rparr>,
              universe = [1], members = [(1, 3 / 4)]\<rparr>\<rparr>,
                 \<lparr>antecedent = (\<lambda>inp. Inr (- 3)), consequent = \<lparr>mu = \<lparr>func = (\<lambda>x. if x < 3 then Inr (3 / 4) else Inr (1 / 4)), name = Named ''low''\<rparr>,
              universe = [1], members = [(1, 3 / 4)]\<rparr>\<rparr>]\<rparr>"
  have run: "infer ?S Map.empty = Inr [(1, 3 / 4), (5, 1 / 4)]"
    by (simp add: infer_def MembershipFunction_call_def)
  have mem: "(1, 3 / 4) \<in> set [(1::real, 3 / 4 :: real), (5, 1 / 4)]"
    by simp
  from infer_values_in_unit_interval [OF run mem] run mem show ?thesis
    by simp
qed

text \<open>
  C7. For two inference systems with the same output universe whose rule sequences are
  permutations of each other, and every input record, \<^verbatim>\<open>infer\<close> returns the same
  aggregated mapping: one returns a mapping exactly when the other returns that same
  mapping, keys in the same order. (When a callable raises, both calls raise.)
\<close>

theorem infer_rule_order_irrelevant:
  fixes s1 s2 :: FuzzyInferenceSystem
  assumes "mset (rules s1) = mset (rules s2)" and "output_range s1 = output_range s2"
  shows "infer s1 inputs = Inr aggregated \<longleftrightarrow> infer s2 inputs = Inr aggregated"
proof -
  have dir: "infer b inputs = Inr agg"
    if ab: "set (rules a) = set (rules b)" "output_range a = output_range b"
      and a: "infer a inputs = Inr agg"
    for a b :: FuzzyInferenceSystem and agg
  proof -
    define degree where "degree r = projr (antecedent r inputs)" for r :: FuzzyRule
    define cm where "cm r y = projr (MembershipFunction_call (mu (consequent r)) y)"
      for r :: FuzzyRule and y
    have "\<forall>r\<in>set (rules a). (\<exists>d. antecedent r inputs = Inr d) \<and>
        (\<forall>y\<in>set (output_range a). \<exists>v. MembershipFunction_call (mu (consequent r)) y = Inr v)"
      using a unfolding infer_def by (rule infer_rules_returns)
    then have ret: "\<exists>d. antecedent r inputs = Inr d"
        "y \<in> set (output_range a) \<Longrightarrow> \<exists>v. MembershipFunction_call (mu (consequent r)) y = Inr v"
      if "r \<in> set (rules a)" for r y
      using that by blast+
    have ok: "\<forall>r\<in>set (rules a). antecedent r inputs = Inr (degree r) \<and>
        (\<forall>y\<in>set (output_range a). MembershipFunction_call (mu (consequent r)) y = Inr (cm r y))"
    proof (intro ballI conjI)
      fix r assume r: "r \<in> set (rules a)"
      from ret(1) [OF r] show "antecedent r inputs = Inr (degree r)"
        by (auto simp: degree_def)
      fix y assume "y \<in> set (output_range a)"
      from ret(2) [OF r this] show "MembershipFunction_call (mu (consequent r)) y = Inr (cm r y)"
        by (auto simp: cm_def)
    qed
    have ok': "\<forall>r\<in>set (rules b). antecedent r inputs = Inr (degree r) \<and>
        (\<forall>y\<in>set (output_range b). MembershipFunction_call (mu (consequent r)) y = Inr (cm r y))"
      using ok ab by simp
    have "infer b inputs = infer a inputs"
      unfolding infer_closed [OF ok] infer_closed [OF ok'] using ab by simp
    then show ?thesis using a by simp
  qed
  have "set (rules s1) = set (rules s2)"
    using assms(1) by (rule mset_eq_setD)
  then show ?thesis
    using dir [of s1 s2 aggregated] dir [of s2 s1 aggregated] assms(2) by metis
qed

theorem infer_rule_order_irrelevant_witness:
  "mset (rules (add_rule (add_rule (FuzzyInferenceSystem_init [] [1, 4])
          \<lparr>antecedent = (\<lambda>inp. Inr (1 / 4)), consequent = \<lparr>mu = \<lparr>func = (\<lambda>x. if x < 3 then Inr (3 / 4) else Inr (1 / 4)), name = Named ''low''\<rparr>,
              universe = [1], members = [(1, 3 / 4)]\<rparr>\<rparr>)
          \<lparr>antecedent = (\<lambda>inp. Inr (3 / 4)), consequent = \<lparr>mu = \<lparr>func = (\<lambda>x. if x < 3 then Inr (1 / 4) else Inr (3 / 2)), name = Named ''high''\<rparr>,
              universe = [4], members = [(4, 1)]\<rparr>\<rparr>)) =
   mset (rules (add_rule (add_rule (FuzzyInferenceSystem_init [] [1, 4])
          \<lparr>antecedent = (\<lambda>inp. Inr (3 / 4)), consequent = \<lparr>mu = \<lparr>func = (\<lambda>x. if x < 3 then Inr (1 / 4) else Inr (3 / 2)), name = Named ''high''\<rparr>,
              universe = [4], members = [(4, 1)]\<rparr>\<rparr>)
          \<lparr>antecedent = (\<lambda>inp. Inr (1 / 4)), consequent = \<lparr>mu = \<lparr>func = (\<lambda>x. if x < 3 then Inr (3 / 4) else Inr (1 / 4)), name = Named ''low''\<rparr>,
              universe = [1], members = [(1, 3 / 4)]\<rparr>\<rparr>))
   \<and> infer (add_rule (add_rule (FuzzyInferenceSystem_init [] [1, 4])
          \<lparr>antecedent = (\<lambda>inp. Inr (1 / 4)), consequent = \<lparr>mu = \<lparr>func = (\<lambda>x. if x < 3 then Inr (3 / 4) else Inr (1 / 4)), name = Named ''low''\<rparr>,
              universe = [1], members = [(1, 3 / 4)]\<rparr>\<rparr>)
          \<lparr>antecedent = (\<lambda>inp. Inr (3 / 4)), consequent = \<lparr>mu = \<lparr>func = (\<lambda>x. if x < 3 then Inr (1 / 4) else Inr (3 / 2)), name = Named ''high''\<rparr>,
              universe = [4], members = [(4, 1)]\<rparr>\<rparr>) Map.empty =
        Inr [(1, 1 / 4), (4, 3 / 4)]
   \<and> infer (add_rule (add_rule (FuzzyInferenceSystem_init [] [1, 4])
          \<lparr>antecedent = (\<lambda>inp. Inr (3 / 4)), consequent = \<lparr>mu = \<lparr>func = (\<lambda>x. if x < 3 then Inr (1 / 4) else Inr (3 / 2)), name = Named ''high''\<rparr>,
              universe = [4], members = [(4, 1)]\<rparr>\<rparr>)
          \<lparr>antecedent = (\<lambda>inp. Inr (1 / 4)), consequent = \<lparr>mu = \<lparr>func = (\<lambda>x. if x < 3 then Inr (3 / 4) else Inr (1 / 4)), name = Named ''low''\<rparr>,
              universe = [1], members = [(1, 3 / 4)]\<rparr>\<rparr>) Map.empty =
        Inr [(1, 1 / 4), (4, 3 / 4)]"
proof -
  let ?R1 = "\<lparr>antecedent = (\<lambda>inp. Inr (1 / 4)), consequent = \<lparr>mu = \<lparr>func = (\<lambda>x. if x < 3 then Inr (3 / 4) else Inr (1 / 4)), name = Named ''low''\<rparr>,
              universe = [1], members = [(1, 3 / 4)]\<rparr>\<rparr>"
  let ?R2 = "\<lparr>antecedent = (\<lambda>inp. Inr (3 / 4)), consequent = \<lparr>mu = \<lparr>func = (\<lambda>x. if x < 3 then Inr (1 / 4) else Inr (3 / 2)), name = Named ''high''\<rparr>,
              universe = [4], members = [(4, 1)]\<rparr>\<rparr>"
  let ?S1 = "add_rule (add_rule (FuzzyInferenceSystem_init [] [1, 4]) ?R1) ?R2"
  let ?S2 = "add_rule (add_rule (FuzzyInferenceSystem_init [] [1, 4]) ?R2) ?R1"
  have perm: "mset (rules ?S1) = mset (rules ?S2)"
    by (simp add: add_rule_def FuzzyInferenceSystem_init_def)
  have out: "output_range ?S1 = output_range ?S2"
    by (simp add: add_rule_def FuzzyInferenceSystem_init_def)
  have run: "infer ?S1 Map.empty = Inr [(1, 1 / 4), (4, 3 / 4)]"
    by (simp add: infer_def add_rule_def FuzzyInferenceSystem_init_def MembershipFunction_call_def)
  from infer_rule_order_irrelevant [OF perm out, of Map.empty "[(1, 1 / 4), (4, 3 / 4)]"] run
  have "infer ?S2 Map.empty = Inr [(1, 1 / 4), (4, 3 / 4)]"
    by simp
  with perm run show ?thesis by simp
qed

subsection \<open>Defuzzification\<close>

text \<open>
  When the two sums return \<open>num\<close> and \<open>den\<close>, \<^verbatim>\<open>defuzzify\<close> returns 0 for
  \<open>den = 0\<close> and otherwise what the division of \<open>num\<close> by \<open>den\<close> returns: the division is
  guarded, the sums are not.
\<close>

lemma defuzzify_guard:
  assumes "sum_products ar 0 aggregated = Inr num" and "sum_values ar 0 aggregated = Inr den"
  shows "defuzzify ar aggregated = (if den \<noteq> 0 then py_truediv ar num den else Inr 0)"
  using assms by (simp add: defuzzify_def)

text \<open>
  C2 fails in the code at \<^verbatim>\<open>defuzzify({10**400: 0.0})\<close>, the mapping \<^verbatim>\<open>infer\<close> returns
  for the output universe \<^verbatim>\<open>[10**400]\<close> and no rules. The sum of the degrees is exactly
  0, but the numerator is computed before the test of the denominator, and
  \<^verbatim>\<open>10**400 * 0.0\<close> raises \<^verbatim>\<open>OverflowError\<close>: the int is too large to convert to float.
  The theorem follows the evaluation for every arithmetic that behaves so at these
  operands.
\<close>

theorem defuzzify_overflow:
  assumes "py_mul ar (10 ^ 400) 0 = Inl OverflowError" and "py_add ar 0 0 = Inr 0"
  shows "sum_values ar 0 [(10 ^ 400, 0)] = Inr 0
    \<and> defuzzify ar [(10 ^ 400, 0)] = Inl OverflowError"
  using assms by (simp add: defuzzify_def del: power_numeral)

theorem defuzzify_overflow_witness:
  "\<exists>ar. py_mul ar (10 ^ 400) 0 = Inl OverflowError \<and> py_add ar 0 0 = Inr 0
     \<and> sum_values ar 0 [(10 ^ 400, 0)] = Inr 0
     \<and> defuzzify ar [(10 ^ 400, 0)] = Inl OverflowError"
proof -
  let ?ar = "\<lparr>py_add = (\<lambda>x y. Inr (x + y)), py_sub = (\<lambda>x y. Inr (x - y)),
      py_mul = (\<lambda>x y. if 10 ^ 400 \<le> \<bar>x\<bar> \<or> 10 ^ 400 \<le> \<bar>y\<bar> then Inl OverflowError
                        else Inr (x * y)),
      py_truediv = (\<lambda>x y. if y = 0 then Inl ZeroDivisionError else Inr (x / y))\<rparr>"
  have h: "py_mul ?ar (10 ^ 400) 0 = Inl OverflowError" "py_add ?ar 0 0 = Inr 0"
    by (simp_all del: power_numeral)
  note c = defuzzify_overflow [OF h]
  show ?thesis
    by (rule exI [of _ ?ar]) (intro conjI h c [THEN conjunct1] c [THEN conjunct2])
qed

end
